theory Spec2Isabelle
  imports Main
begin

section \<open>JavaScript values\<close>

text \<open>
  The library inspects untyped results at run time (\<^verbatim>\<open>typeof\<close>, truthiness, the
  \<^verbatim>\<open>in\<close> operator). Values are modelled one level deep, which is all the inspected
  code looks at: primitives, functions (with their declared parameter count), arrays and
  plain objects (an ordered list of own properties, first binding wins).
\<close>

datatype jsval =
    JUndefined
  | JNull
  | JBool bool
  | JNum int
  | JNaN
  | JBigInt int
  | JStr string
  | JSymbol string
  | JFun nat
  | JArr "jsval list"
  | JObj "(string \<times> jsval) list"

datatype js_type =
  TUndefined | TObject | TBoolean | TNumber | TBigint | TString | TSymbol | TFunction

fun js_typeof :: "jsval \<Rightarrow> js_type" where
  "js_typeof JUndefined = TUndefined"
| "js_typeof JNull = TObject"
| "js_typeof (JBool b) = TBoolean"
| "js_typeof (JNum n) = TNumber"
| "js_typeof JNaN = TNumber"
| "js_typeof (JBigInt n) = TBigint"
| "js_typeof (JStr s) = TString"
| "js_typeof (JSymbol s) = TSymbol"
| "js_typeof (JFun n) = TFunction"
| "js_typeof (JArr xs) = TObject"
| "js_typeof (JObj ps) = TObject"

fun truthy :: "jsval \<Rightarrow> bool" where
  "truthy JUndefined = False"
| "truthy JNull = False"
| "truthy (JBool b) = b"
| "truthy (JNum n) = (n \<noteq> 0)"
| "truthy JNaN = False"
| "truthy (JBigInt n) = (n \<noteq> 0)"
| "truthy (JStr s) = (s \<noteq> [])"
| "truthy (JSymbol s) = True"
| "truthy (JFun n) = True"
| "truthy (JArr xs) = True"
| "truthy (JObj ps) = True"

text \<open>Decimal rendering of an array index, the property key under which an element lives.\<close>

definition digit_char :: "nat \<Rightarrow> char" where
  "digit_char d = ''0123456789'' ! d"

fun dec :: "nat \<Rightarrow> string" where
  "dec n = (if n < 10 then [digit_char n] else dec (n div 10) @ [digit_char (n mod 10)])"

declare dec.simps [simp del]

text \<open>
  Own properties. An array owns its indices and \<^verbatim>\<open>length\<close>; an object owns what it was
  built with. Neither \<^verbatim>\<open>Object.prototype\<close> nor \<^verbatim>\<open>Array.prototype\<close> has a property
  named \<^verbatim>\<open>errors\<close>, so for that key the own properties decide \<^verbatim>\<open>in\<close> and member access.
\<close>

fun own_properties :: "jsval \<Rightarrow> (string \<times> jsval) list" where
  "own_properties (JObj ps) = ps"
| "own_properties (JArr xs) =
     zip (map dec [0..<length xs]) xs @ [(''length'', JNum (int (length xs)))]"
| "own_properties v = []"

definition has_property :: "string \<Rightarrow> jsval \<Rightarrow> bool" where
  "has_property k v = (map_of (own_properties v) k \<noteq> None)"

definition get_property :: "jsval \<Rightarrow> string \<Rightarrow> jsval" where
  "get_property v k = (case map_of (own_properties v) k of Some x \<Rightarrow> x | None \<Rightarrow> JUndefined)"

section \<open>Error mapper and calling-convention detection (types.ts)\<close>

text \<open>
  \<^verbatim>\<open>defaultErrorMapper\<close>: the five conjuncts of the source's condition, in the source's
  order; \<^verbatim>\<open>&&\<close> short-circuits, so each test runs only when the ones before it held.
\<close>

definition defaultErrorMapper :: "jsval \<Rightarrow> jsval" where
  "defaultErrorMapper result =
     (if truthy result then
        if js_typeof result = TObject then
          if has_property ''errors'' result then
            if truthy (get_property result ''errors'') then
              if js_typeof (get_property result ''errors'') = TObject
              then get_property result ''errors''
              else JNull
            else JNull
          else JNull
        else JNull
      else JNull)"

text \<open>
  A server action is a function value: its \<^verbatim>\<open>length\<close> (declared parameter count) and the
  \<^verbatim>\<open>__schema\<close> property that \<^verbatim>\<open>withZod\<close> attaches (absent, present but null or
  undefined, or a schema).
\<close>

record 's ServerAction =
  fn_length :: nat
  schema_prop :: "'s option option"

datatype action_signature = FormDataServerAction | JsonServerAction

definition isFormDataAction :: "'s ServerAction \<Rightarrow> bool" where
  "isFormDataAction action = (fn_length action \<ge> 2)"

text \<open>
  \<^verbatim>\<open>isFormDataAction\<close> is a type guard over the union
  \<^verbatim>\<open>JsonServerAction | FormDataServerAction\<close>: the member it narrows the action to.
\<close>

definition narrowed_signature :: "'s ServerAction \<Rightarrow> action_signature" where
  "narrowed_signature action =
     (if isFormDataAction action then FormDataServerAction else JsonServerAction)"

definition hasAttachedSchema :: "'s ServerAction \<Rightarrow> bool" where
  "hasAttachedSchema action =
     (case schema_prop action of None \<Rightarrow> False | Some None \<Rightarrow> False | Some (Some s) \<Rightarrow> True)"

section \<open>Persistence helpers (persist.ts)\<close>

datatype js_error = SyntaxError | TypeError | ReferenceError | SecurityError | QuotaExceededError

text \<open>
  The storage medium: its contents, and which calls it rejects by throwing (disabled
  storage, exceeded quota). A call that throws leaves the contents as they were.
\<close>

record medium =
  items :: "string \<rightharpoonup> string"
  getItem_throws :: "string \<Rightarrow> bool"
  setItem_throws :: "string \<Rightarrow> string \<Rightarrow> bool"
  removeItem_throws :: "string \<Rightarrow> bool"

definition getItem :: "medium \<Rightarrow> string \<Rightarrow> js_error + string option" where
  "getItem m key = (if getItem_throws m key then Inl SecurityError else Inr (items m key))"

definition setItem :: "medium \<Rightarrow> string \<Rightarrow> string \<Rightarrow> js_error + medium" where
  "setItem m key v =
     (if setItem_throws m key v then Inl QuotaExceededError
      else Inr (m\<lparr>items := (items m)(key \<mapsto> v)\<rparr>))"

definition removeItem :: "medium \<Rightarrow> string \<Rightarrow> js_error + medium" where
  "removeItem m key =
     (if removeItem_throws m key then Inl SecurityError
      else Inr (m\<lparr>items := (items m)(key := None)\<rparr>))"

text \<open>
  The global scope: \<^verbatim>\<open>window\<close> is undefined (server rendering); or it exists and
  reading its \<^verbatim>\<open>sessionStorage\<close> property throws (access to storage is blocked), or gives
  undefined, or gives a medium.
\<close>

datatype window_env = NoWindow | BlockedWindow | Window "medium option"

text \<open>The expression \<^verbatim>\<open>window.sessionStorage\<close>.\<close>

fun sessionStorage :: "window_env \<Rightarrow> js_error + medium option" where
  "sessionStorage NoWindow = Inl ReferenceError"
| "sessionStorage BlockedWindow = Inl SecurityError"
| "sessionStorage (Window p) = Inr p"

text \<open>
  \<^verbatim>\<open>isClient\<close>: \<^verbatim>\<open>typeof window !== 'undefined' && typeof window.sessionStorage !==
  'undefined'\<close>. \<^verbatim>\<open>typeof\<close> guards an undeclared \<^verbatim>\<open>window\<close>, not a property read that
  throws.
\<close>

fun isClient :: "window_env \<Rightarrow> js_error + bool" where
  "isClient NoWindow = Inr False"
| "isClient w = (case sessionStorage w of Inl e \<Rightarrow> Inl e | Inr p \<Rightarrow> Inr (p \<noteq> None))"

text \<open>\<^verbatim>\<open>try { body } catch { handler }\<close> over results that are a thrown error or a value.\<close>

definition try_catch :: "'e + 'a \<Rightarrow> 'e + 'a \<Rightarrow> 'e + 'a" where
  "try_catch body handler = (case body of Inl e \<Rightarrow> handler | Inr v \<Rightarrow> Inr v)"

text \<open>
  \<^verbatim>\<open>JSON.parse\<close> and \<^verbatim>\<open>JSON.stringify\<close> belong to the platform and are parameters:
  \<open>parse\<close> throws on malformed text, \<open>stringify\<close> may throw (cyclic values) and
  otherwise yields the text that \<^verbatim>\<open>setItem\<close> stores. In each helper the call of
  \<^verbatim>\<open>isClient\<close> stands before the \<^verbatim>\<open>try\<close> block; inside the block
  \<^verbatim>\<open>window.sessionStorage\<close> is read again to reach the medium.
\<close>

definition loadPersistedValues ::
  "(string \<Rightarrow> js_error + jsval) \<Rightarrow> window_env \<Rightarrow> string \<Rightarrow> js_error + jsval" where
  "loadPersistedValues parse w key =
     (case isClient w of
        Inl e \<Rightarrow> Inl e
      | Inr client \<Rightarrow>
          if \<not> client then Inr JNull
          else
            try_catch
              (case sessionStorage w of
                 Inl e \<Rightarrow> Inl e
               | Inr None \<Rightarrow> Inl TypeError
               | Inr (Some m) \<Rightarrow>
                   (case getItem m key of
                      Inl e \<Rightarrow> Inl e
                    | Inr raw \<Rightarrow>
                        (case raw of
                           None \<Rightarrow> Inr JNull
                         | Some s \<Rightarrow> if s = [] then Inr JNull else parse s)))
              (Inr JNull))"

definition savePersistedValues ::
  "(jsval \<Rightarrow> js_error + string) \<Rightarrow> window_env \<Rightarrow> string \<Rightarrow> jsval \<Rightarrow> js_error + window_env" where
  "savePersistedValues stringify w key values =
     (case isClient w of
        Inl e \<Rightarrow> Inl e
      | Inr client \<Rightarrow>
          if \<not> client then Inr w
          else
            try_catch
              (case sessionStorage w of
                 Inl e \<Rightarrow> Inl e
               | Inr None \<Rightarrow> Inl TypeError
               | Inr (Some m) \<Rightarrow>
                   (case stringify values of
                      Inl e \<Rightarrow> Inl e
                    | Inr s \<Rightarrow>
                        (case setItem m key s of
                           Inl e \<Rightarrow> Inl e
                         | Inr m' \<Rightarrow> Inr (Window (Some m')))))
              (Inr w))"

definition clearPersistedValues :: "window_env \<Rightarrow> string \<Rightarrow> js_error + window_env" where
  "clearPersistedValues w key =
     (case isClient w of
        Inl e \<Rightarrow> Inl e
      | Inr client \<Rightarrow>
          if \<not> client then Inr w
          else
            try_catch
              (case sessionStorage w of
                 Inl e \<Rightarrow> Inl e
               | Inr None \<Rightarrow> Inl TypeError
               | Inr (Some m) \<Rightarrow>
                   (case removeItem m key of
                      Inl e \<Rightarrow> Inl e
                    | Inr m' \<Rightarrow> Inr (Window (Some m'))))
              (Inr w))"


section \<open>Debounce (persist.ts)\<close>

text \<open>
  \<^verbatim>\<open>debounce(fn, delay)\<close> closes over one variable, \<^verbatim>\<open>timer\<close>, and talks to the host's
  timers. The state holds that variable, the host's pending timeouts (handle, due time and
  the arguments captured by the callback, in scheduling order), the host's next handle and
  clock (milliseconds), and a log of the calls \<^verbatim>\<open>fn\<close> has received (time and arguments,
  oldest first). Handles returned by \<^verbatim>\<open>setTimeout\<close> are truthy (positive numbers in
  browsers, objects in Node), so \<^verbatim>\<open>if (timer)\<close> tests for a pending handle.
\<close>

record 'a debounced =
  timer :: "nat option"
  queue :: "(nat \<times> nat \<times> 'a) list"
  next_handle :: nat
  clock :: nat
  fired :: "(nat \<times> 'a) list"

definition debounce :: "'a debounced" where
  "debounce = \<lparr>timer = None, queue = [], next_handle = 1, clock = 0, fired = []\<rparr>"

text \<open>
  The host's timers take the delay as a signed 32-bit number of milliseconds. Node, on
  which the test suite runs, replaces a delay below 1 or above 2147483647
  (\<^verbatim>\<open>TIMEOUT_MAX\<close>) by 1.
\<close>

definition TIMEOUT_MAX :: nat where
  "TIMEOUT_MAX = 2147483647"

definition host_delay :: "nat \<Rightarrow> nat" where
  "host_delay delay = (if delay < 1 \<or> TIMEOUT_MAX < delay then 1 else delay)"

definition setTimeout :: "'a \<Rightarrow> nat \<Rightarrow> 'a debounced \<Rightarrow> nat \<times> 'a debounced" where
  "setTimeout args delay s =
     (next_handle s,
      s\<lparr>queue := queue s @ [(next_handle s, clock s + host_delay delay, args)],
        next_handle := Suc (next_handle s)\<rparr>)"

definition clearTimeout :: "nat \<Rightarrow> 'a debounced \<Rightarrow> 'a debounced" where
  "clearTimeout h s = s\<lparr>queue := filter (\<lambda>e. fst e \<noteq> h) (queue s)\<rparr>"

text \<open>The returned closure: cancel the pending timeout, if any, and schedule a new one.\<close>

definition debounced_call :: "nat \<Rightarrow> 'a \<Rightarrow> 'a debounced \<Rightarrow> 'a debounced" where
  "debounced_call delay args s =
     (let s1 = (case timer s of Some h \<Rightarrow> clearTimeout h s | None \<Rightarrow> s);
          (h, s2) = setTimeout args delay s1
      in s2\<lparr>timer := Some h\<rparr>)"

text \<open>The timeout's callback, run by the host at its due time: \<^verbatim>\<open>fn(...args); timer = null\<close>.\<close>

definition run_timeout :: "nat \<times> nat \<times> 'a \<Rightarrow> 'a debounced \<Rightarrow> 'a debounced" where
  "run_timeout e s =
     (let (h, due, args) = e;
          s1 = s\<lparr>clock := due, queue := filter (\<lambda>e'. fst e' \<noteq> h) (queue s)\<rparr>
      in s1\<lparr>fired := fired s1 @ [(due, args)], timer := None\<rparr>)"

text \<open>
  The host lets \<open>d\<close> milliseconds pass: every timeout due by then runs, earliest first
  (scheduling order among equals), and the clock ends \<open>d\<close> later. When no time passes the
  next call comes in the same tick, and the host runs no timeout within a tick.
\<close>

definition elapse :: "nat \<Rightarrow> 'a debounced \<Rightarrow> 'a debounced" where
  "elapse d s =
     (if d = 0 then s
      else
        let target = clock s + d;
            due_now = sort_key (\<lambda>e. fst (snd e)) (filter (\<lambda>e. fst (snd e) \<le> target) (queue s))
        in (fold run_timeout due_now s)\<lparr>clock := target\<rparr>)"

text \<open>A series of calls, each given with the time since the one before it.\<close>

fun burst :: "nat \<Rightarrow> (nat \<times> 'a) list \<Rightarrow> 'a debounced \<Rightarrow> 'a debounced" where
  "burst delay [] s = s"
| "burst delay ((gap, args) # cs) s = burst delay cs (debounced_call delay args (elapse gap s))"

text \<open>Between calls of a burst exactly one timeout is pending: the closure holds its handle,
  it is due at \<open>due\<close> and carries the arguments \<open>a\<close> of the latest call, made at time \<open>t\<close>;
  \<open>F\<close> is what \<^verbatim>\<open>fn\<close> has received so far.\<close>

definition armed :: "nat \<Rightarrow> nat \<Rightarrow> 'a \<Rightarrow> (nat \<times> 'a) list \<Rightarrow> 'a debounced \<Rightarrow> bool" where
  "armed due t a F s \<longleftrightarrow>
     (\<exists>h. timer s = Some h \<and> queue s = [(h, due, a)]) \<and> clock s = t \<and> fired s = F"

section \<open>Submission lifecycle controller\<close>

type_synonym FieldErrorRecord = "(string \<times> string list) list"

text \<open>\<^verbatim>\<open>ActionFormState\<close> as declared in types.ts.\<close>

record 'r ActionFormState =
  isSubmitting :: bool
  isSubmitSuccessful :: bool
  submitErrors :: "FieldErrorRecord option"
  actionResult :: "'r option"
  isPending :: bool

text \<open>
  A schema is used through one entry point only: \<^verbatim>\<open>safeParse\<close> on the field values,
  reduced to the field errors of its failure (\<open>None\<close> when the values pass).
\<close>

type_synonym 'v schema = "'v \<Rightarrow> FieldErrorRecord option"

text \<open>\<^verbatim>\<open>ActionFormPlugin\<close> as declared in the core types; only the pre-submit hook acts on a
  submission's course.\<close>

record 'v ActionFormPlugin =
  name :: string
  onBeforeSubmit :: "('v \<Rightarrow> bool) option"

text \<open>\<^verbatim>\<open>UseActionFormCoreOptions\<close> as declared in the core types (the fields that bear on a
  submission).\<close>

record ('v, 'r, 'o) UseActionFormCoreOptions =
  persistKey :: "string option"
  errorMapper :: "'r \<Rightarrow> FieldErrorRecord option"
  schema :: "'v schema option"
  optimisticKey :: "string option"
  optimisticData :: "('o \<Rightarrow> 'v \<Rightarrow> 'o) option"
  optimisticInitial :: 'o
  plugins :: "'v ActionFormPlugin list"

text \<open>The submit function: a function value that resolves (\<open>Inr\<close>) or throws or rejects
  (\<open>Inl\<close>), possibly carrying a schema.\<close>

record ('v, 'e, 'r) SubmitFunction = "'v schema ServerAction" +
  invoke :: "'v \<Rightarrow> 'e + 'r"

text \<open>Modelled from the spec: the Optimistic Reconciler of section 4.4 (the controller's
  source file, use-action-form-core.ts, is not among the sources). It holds the confirmed
  value and the value shown, \<^verbatim>\<open>optimistic.data\<close>.\<close>

record 'o reconciler =
  confirmed :: 'o
  data :: 'o

text \<open>Modelled from the spec: the reconciler is constructed with an initial confirmed
  value (use-action-form-core.ts is missing).\<close>

definition reconciler_init :: "'o \<Rightarrow> 'o reconciler" where
  "reconciler_init c = \<lparr>confirmed = c, data = c\<rparr>"

text \<open>Modelled from the spec: \<^verbatim>\<open>apply(submittedValues)\<close>, the reducer over the confirmed
  value and the submitted values; a second apply overwrites the speculative value
  (use-action-form-core.ts is missing).\<close>

definition reconciler_apply :: "('o \<Rightarrow> 'v \<Rightarrow> 'o) \<Rightarrow> 'v \<Rightarrow> 'o reconciler \<Rightarrow> 'o reconciler" where
  "reconciler_apply f v r = r\<lparr>data := f (confirmed r) v\<rparr>"

text \<open>Modelled from the spec: \<^verbatim>\<open>confirm(value)\<close> (use-action-form-core.ts is missing).\<close>

definition reconciler_confirm :: "'o \<Rightarrow> 'o reconciler \<Rightarrow> 'o reconciler" where
  "reconciler_confirm value r = r\<lparr>confirmed := value, data := value\<rparr>"

text \<open>Modelled from the spec: \<^verbatim>\<open>rollback()\<close> restores the last explicitly confirmed value
  (use-action-form-core.ts is missing).\<close>

definition rollback :: "'o reconciler \<Rightarrow> 'o reconciler" where
  "rollback r = r\<lparr>data := confirmed r\<rparr>"

text \<open>Modelled from the spec: what one controller instance owns (use-action-form-core.ts is
  missing): the action form state, the reconciler, the storage it persists to, and the
  payloads the submit function has been called with, oldest first.\<close>

record ('v, 'r, 'o) controller =
  formState :: "'r ActionFormState"
  optimistic :: "'o reconciler"
  storage :: window_env
  submitted :: "'v list"

text \<open>Modelled from the spec: the controller at mount (use-action-form-core.ts is missing):
  idle, nothing submitted, the reconciler at the initial confirmed value.\<close>

definition mount :: "('v, 'r, 'o) UseActionFormCoreOptions \<Rightarrow> window_env \<Rightarrow> ('v, 'r, 'o) controller" where
  "mount opts w =
     \<lparr>formState = \<lparr>isSubmitting = False, isSubmitSuccessful = False, submitErrors = None,
                    actionResult = None, isPending = False\<rparr>,
      optimistic = reconciler_init (optimisticInitial opts),
      storage = w,
      submitted = []\<rparr>"

text \<open>Modelled from the spec: schema auto-detection of section 4.3 (use-action-form-core.ts
  is missing): the explicit schema option has priority, else the schema attached to the
  submit function.\<close>

definition effectiveSchema ::
  "('v, 'r, 'o) UseActionFormCoreOptions \<Rightarrow> ('v, 'e, 'r) SubmitFunction \<Rightarrow> 'v schema option" where
  "effectiveSchema opts submit =
     (case schema opts of
        Some sch \<Rightarrow> Some sch
      | None \<Rightarrow> (case schema_prop submit of Some (Some sch) \<Rightarrow> Some sch | _ \<Rightarrow> None))"

text \<open>Modelled from the spec: the Validating state (use-action-form-core.ts is missing);
  skipped, with no error, when no schema is configured.\<close>

definition validate ::
  "('v, 'r, 'o) UseActionFormCoreOptions \<Rightarrow> ('v, 'e, 'r) SubmitFunction \<Rightarrow> 'v \<Rightarrow> FieldErrorRecord option" where
  "validate opts submit vals =
     (case effectiveSchema opts submit of None \<Rightarrow> None | Some sch \<Rightarrow> sch vals)"

text \<open>Modelled from the spec: a configured pre-submit plugin hook may veto the transition to
  Submitting by returning false (use-action-form-core.ts is missing).\<close>

definition vetoed :: "'v ActionFormPlugin list \<Rightarrow> 'v \<Rightarrow> bool" where
  "vetoed ps vals =
     list_ex (\<lambda>p. case onBeforeSubmit p of None \<Rightarrow> False | Some hook \<Rightarrow> \<not> hook vals) ps"

text \<open>Modelled from the spec: optimistic updates are on when an optimistic key is
  configured, with its reducer (use-action-form-core.ts is missing).\<close>

definition optimisticReducer ::
  "('v, 'r, 'o) UseActionFormCoreOptions \<Rightarrow> ('o \<Rightarrow> 'v \<Rightarrow> 'o) option" where
  "optimisticReducer opts =
     (case optimisticKey opts of None \<Rightarrow> None | Some k \<Rightarrow> optimisticData opts)"

text \<open>Modelled from the spec: \<^verbatim>\<open>clearPersistedData\<close> of the controller
  (use-action-form-core.ts is missing), which only works when a persist key is set; it
  calls \<^verbatim>\<open>clearPersistedValues\<close>, and a failure of storage is swallowed (section 7).\<close>

definition clearPersistedData ::
  "('v, 'r, 'o) UseActionFormCoreOptions \<Rightarrow> window_env \<Rightarrow> window_env" where
  "clearPersistedData opts w =
     (case persistKey opts of
        None \<Rightarrow> w
      | Some key \<Rightarrow> (case clearPersistedValues w key of Inr w' \<Rightarrow> w' | Inl e \<Rightarrow> w))"

text \<open>Modelled from the spec: the ways one run of the submit handler ends, the terminal
  states of section 4.3 and the two aborts before Submitting (use-action-form-core.ts is
  missing).\<close>

datatype ('e, 'r) outcome =
    ValidationAborted FieldErrorRecord
  | Vetoed
  | Succeeded 'r
  | FieldError FieldErrorRecord 'r
  | Threw 'e

text \<open>Modelled from the spec: entry into Submitting (use-action-form-core.ts is missing):
  the speculative value is applied at once, before the submit call resolves.\<close>

definition enter_submitting ::
  "('v, 'r, 'o) UseActionFormCoreOptions \<Rightarrow> 'v \<Rightarrow> ('v, 'r, 'o) controller \<Rightarrow> ('v, 'r, 'o) controller" where
  "enter_submitting opts vals s =
     s\<lparr>formState := (formState s)\<lparr>isSubmitting := True, isPending := True\<rparr>,
       optimistic := (case optimisticReducer opts of
                        None \<Rightarrow> optimistic s
                      | Some f \<Rightarrow> reconciler_apply f vals (optimistic s)),
       submitted := submitted s @ [vals]\<rparr>"

text \<open>Modelled from the spec: Submitting to Succeeded (use-action-form-core.ts is missing):
  result stored, errors cleared, persisted snapshot cleared, optimistic state confirmed to
  the just-applied speculative value; the busy flags fall last.\<close>

definition settle_succeeded ::
  "('v, 'r, 'o) UseActionFormCoreOptions \<Rightarrow> 'r \<Rightarrow> ('v, 'r, 'o) controller \<Rightarrow> ('v, 'r, 'o) controller" where
  "settle_succeeded opts r s =
     s\<lparr>formState := \<lparr>isSubmitting = False, isSubmitSuccessful = True, submitErrors = None,
                      actionResult = Some r, isPending = False\<rparr>,
       storage := clearPersistedData opts (storage s),
       optimistic := (case optimisticReducer opts of
                        None \<Rightarrow> optimistic s
                      | Some f \<Rightarrow> reconciler_confirm (data (optimistic s)) (optimistic s))\<rparr>"

text \<open>Modelled from the spec: Submitting to FieldError (use-action-form-core.ts is missing):
  errors set, optimistic state rolled back, persisted snapshot retained. The result is
  kept as \<^verbatim>\<open>actionResult\<close>, which types.ts documents as the full result from the last
  action invocation.\<close>

definition settle_field_error ::
  "('v, 'r, 'o) UseActionFormCoreOptions \<Rightarrow> FieldErrorRecord \<Rightarrow> 'r \<Rightarrow> ('v, 'r, 'o) controller \<Rightarrow> ('v, 'r, 'o) controller" where
  "settle_field_error opts errs r s =
     s\<lparr>formState := \<lparr>isSubmitting = False, isSubmitSuccessful = False, submitErrors = Some errs,
                      actionResult = Some r, isPending = False\<rparr>,
       optimistic := (case optimisticReducer opts of
                        None \<Rightarrow> optimistic s
                      | Some f \<Rightarrow> rollback (optimistic s))\<rparr>"

text \<open>Modelled from the spec: Submitting to Threw (use-action-form-core.ts is missing): as
  FieldError for rollback and persistence, with \<^verbatim>\<open>submitErrors\<close> null.\<close>

definition settle_threw ::
  "('v, 'r, 'o) UseActionFormCoreOptions \<Rightarrow> ('v, 'r, 'o) controller \<Rightarrow> ('v, 'r, 'o) controller" where
  "settle_threw opts s =
     s\<lparr>formState := (formState s)\<lparr>isSubmitting := False, isSubmitSuccessful := False,
                                   submitErrors := None, isPending := False\<rparr>,
       optimistic := (case optimisticReducer opts of
                        None \<Rightarrow> optimistic s
                      | Some f \<Rightarrow> rollback (optimistic s))\<rparr>"

text \<open>Modelled from the spec: the validation abort (use-action-form-core.ts is missing):
  the record is surfaced as \<^verbatim>\<open>submitErrors\<close>, \<^verbatim>\<open>isSubmitSuccessful\<close> is set false, the
  submit function is not reached.\<close>

definition abort_validation ::
  "FieldErrorRecord \<Rightarrow> ('v, 'r, 'o) controller \<Rightarrow> ('v, 'r, 'o) controller" where
  "abort_validation errs s =
     s\<lparr>formState := (formState s)\<lparr>submitErrors := Some errs, isSubmitSuccessful := False\<rparr>\<rparr>"

text \<open>Modelled from the spec: a plugin veto (use-action-form-core.ts is missing): it
  behaves as a validation abort, but no error record is produced, so none is surfaced; the
  submit function is not reached.\<close>

definition abort_veto :: "('v, 'r, 'o) controller \<Rightarrow> ('v, 'r, 'o) controller" where
  "abort_veto s = s\<lparr>formState := (formState s)\<lparr>isSubmitSuccessful := False\<rparr>\<rparr>"

text \<open>Modelled from the spec: one run of the submit handler, the state machine of section
  4.3 from Idle back to Idle (use-action-form-core.ts is missing). The submit function is
  not cancelled once invoked, so the run is followed to its settlement.\<close>

definition handleSubmit ::
  "('v, 'r, 'o) UseActionFormCoreOptions \<Rightarrow> ('v, 'e, 'r) SubmitFunction \<Rightarrow> 'v \<Rightarrow>
   ('v, 'r, 'o) controller \<Rightarrow> ('e, 'r) outcome \<times> ('v, 'r, 'o) controller" where
  "handleSubmit opts submit vals s =
     (case validate opts submit vals of
        Some errs \<Rightarrow> (ValidationAborted errs, abort_validation errs s)
      | None \<Rightarrow>
          if vetoed (plugins opts) vals then (Vetoed, abort_veto s)
          else
            (let s1 = enter_submitting opts vals s in
             case invoke submit vals of
               Inl e \<Rightarrow> (Threw e, settle_threw opts s1)
             | Inr r \<Rightarrow>
                 (case errorMapper opts r of
                    Some errs \<Rightarrow> (FieldError errs r, settle_field_error opts errs r s1)
                  | None \<Rightarrow> (Succeeded r, settle_succeeded opts r s1))))"

text \<open>Modelled from the spec: the explicit user call to \<^verbatim>\<open>optimistic.rollback\<close>
  (use-action-form-core.ts is missing).\<close>

definition manual_rollback :: "('v, 'r, 'o) controller \<Rightarrow> ('v, 'r, 'o) controller" where
  "manual_rollback s = s\<lparr>optimistic := rollback (optimistic s)\<rparr>"

text \<open>Modelled from the spec: a series of runs of the submit handler, one after the other
  (no run starts while another is in flight), each with the options, submit function and
  field values of its render (use-action-form-core.ts is missing).\<close>

fun submissions ::
  "(('v, 'r, 'o) UseActionFormCoreOptions \<times> ('v, 'e, 'r) SubmitFunction \<times> 'v) list \<Rightarrow>
   ('v, 'r, 'o) controller \<Rightarrow> ('e, 'r) outcome list \<times> ('v, 'r, 'o) controller" where
  "submissions [] s = ([], s)"
| "submissions ((opts, submit, vals) # rest) s =
     (let (out, s1) = handleSubmit opts submit vals s;
          (outs, s2) = submissions rest s1
      in (out # outs, s2))"

text \<open>A vetoed run is not a submission attempt: nothing is validated against, submitted or
  classified.\<close>

fun attempted :: "('e, 'r) outcome \<Rightarrow> bool" where
  "attempted Vetoed = False"
| "attempted out = True"

definition most_recent_attempt :: "('e, 'r) outcome list \<Rightarrow> ('e, 'r) outcome option" where
  "most_recent_attempt outs =
     (case filter attempted outs of [] \<Rightarrow> None | x # xs \<Rightarrow> Some (last (x # xs)))"

text \<open>The attempts that end with a field error record: the one the error mapper extracts
  from the result, and the one client validation produces.\<close>

fun produced_field_errors :: "('e, 'r) outcome \<Rightarrow> bool" where
  "produced_field_errors (FieldError errs r) = True"
| "produced_field_errors (ValidationAborted errs) = True"
| "produced_field_errors out = False"


section \<open>Example inputs\<close>



text \<open>Field values are an ordered mapping from field name to value. The sign-up schema of
  the tests: the email holds an at sign, the password has eight characters or more.\<close>

definition signupSchema :: "(string \<times> string) list schema" where
  "signupSchema vals =
     (let email_errors =
            (case map_of vals ''email'' of
               Some e \<Rightarrow> if CHR ''@'' \<in> set e then [] else [(''email'', [''Invalid email address''])]
             | None \<Rightarrow> [(''email'', [''Required''])]);
          password_errors =
            (case map_of vals ''password'' of
               Some p \<Rightarrow> if 8 \<le> length p then []
                         else [(''password'', [''Password must be at least 8 characters''])]
             | None \<Rightarrow> [(''password'', [''Required''])])
      in if email_errors @ password_errors = [] then None
         else Some (email_errors @ password_errors))"

text \<open>Results that carry their field errors, if any, and the mapper that reads them.\<close>

definition signup_options ::
  "((string \<times> string) list, FieldErrorRecord option, string) UseActionFormCoreOptions" where
  "signup_options =
     \<lparr>persistKey = Some ''wizard-step-1'', errorMapper = (\<lambda>r. r), schema = Some signupSchema,
      optimisticKey = None, optimisticData = None, optimisticInitial = [], plugins = []\<rparr>"

text \<open>The to-do item of the tests, reduced to its title, which the reducer takes from the
  submitted values.\<close>

definition todo_options ::
  "((string \<times> string) list, FieldErrorRecord option, string) UseActionFormCoreOptions" where
  "todo_options =
     \<lparr>persistKey = Some ''wizard-step-1'', errorMapper = (\<lambda>r. r), schema = None,
      optimisticKey = Some ''todo-1'',
      optimisticData = Some (\<lambda>current vals. case map_of vals ''title'' of Some t \<Rightarrow> t | None \<Rightarrow> current),
      optimisticInitial = ''Buy groceries'', plugins = []\<rparr>"

definition succeeding_action ::
  "((string \<times> string) list, string, FieldErrorRecord option) SubmitFunction" where
  "succeeding_action = \<lparr>fn_length = 1, schema_prop = None, invoke = (\<lambda>vals. Inr None)\<rparr>"

definition rejecting_action ::
  "((string \<times> string) list, string, FieldErrorRecord option) SubmitFunction" where
  "rejecting_action =
     \<lparr>fn_length = 1, schema_prop = None,
      invoke = (\<lambda>vals. Inr (Some [(''title'', [''Title is required''])]))\<rparr>"

definition throwing_action ::
  "((string \<times> string) list, string, FieldErrorRecord option) SubmitFunction" where
  "throwing_action =
     \<lparr>fn_length = 1, schema_prop = None, invoke = (\<lambda>vals. Inl ''Network error'')\<rparr>"

section \<open>Properties of the error mapper\<close>

lemma object_nonnull_truthy: "js_typeof r = TObject \<Longrightarrow> r \<noteq> JNull \<Longrightarrow> truthy r"
  by (cases r) simp_all

lemma truthy_property_present: "truthy (get_property r k) \<Longrightarrow> has_property k r"
  by (simp add: get_property_def has_property_def split: option.splits)

lemma mapper_accepts:
  assumes "r \<noteq> JNull" "js_typeof r = TObject" "truthy (get_property r ''errors'')"
    "js_typeof (get_property r ''errors'') = TObject"
  shows "defaultErrorMapper r = get_property r ''errors''"
proof -
  have "truthy r" "has_property ''errors'' r"
    using assms object_nonnull_truthy truthy_property_present by blast+
  with assms show ?thesis by (simp add: defaultErrorMapper_def)
qed

lemma mapper_rejects:
  assumes "r = JNull \<or> js_typeof r \<noteq> TObject \<or> \<not> has_property ''errors'' r
    \<or> \<not> truthy (get_property r ''errors'') \<or> js_typeof (get_property r ''errors'') \<noteq> TObject"
  shows "defaultErrorMapper r = JNull"
proof -
  have "r = JNull \<Longrightarrow> \<not> truthy r" by simp
  with assms consider "\<not> truthy r" | "js_typeof r \<noteq> TObject" | "\<not> has_property ''errors'' r"
    | "\<not> truthy (get_property r ''errors'')" | "js_typeof (get_property r ''errors'') \<noteq> TObject"
    by blast
  then show ?thesis by cases (simp_all add: defaultErrorMapper_def)
qed

text \<open>
  C2. For every result \<open>r\<close>, the default error mapper returns \<open>r.errors\<close> when \<open>r\<close> is a
  non-null object whose \<^verbatim>\<open>errors\<close> property is a truthy value of object type, and null
  for every other input: null, undefined, every value that is not of object type, every
  object without an \<^verbatim>\<open>errors\<close> property.
\<close>

theorem defaultErrorMapper_shape:
  "defaultErrorMapper r =
     (if r \<noteq> JNull \<and> js_typeof r = TObject
         \<and> truthy (get_property r ''errors'') \<and> js_typeof (get_property r ''errors'') = TObject
      then get_property r ''errors'' else JNull)
   \<and> defaultErrorMapper JNull = JNull
   \<and> defaultErrorMapper JUndefined = JNull
   \<and> (js_typeof r \<noteq> TObject \<longrightarrow> defaultErrorMapper r = JNull)
   \<and> (\<not> has_property ''errors'' r \<longrightarrow> defaultErrorMapper r = JNull)"
proof (intro conjI impI)
  show "defaultErrorMapper r =
     (if r \<noteq> JNull \<and> js_typeof r = TObject
         \<and> truthy (get_property r ''errors'') \<and> js_typeof (get_property r ''errors'') = TObject
      then get_property r ''errors'' else JNull)"
  proof (cases "r \<noteq> JNull \<and> js_typeof r = TObject
         \<and> truthy (get_property r ''errors'') \<and> js_typeof (get_property r ''errors'') = TObject")
    case True
    then show ?thesis using mapper_accepts [of r] by simp
  next
    case False
    then have null: "defaultErrorMapper r = JNull" by (intro mapper_rejects) blast
    show ?thesis unfolding if_not_P [OF False] by (fact null)
  qed
  show "defaultErrorMapper JNull = JNull" by (rule mapper_rejects) simp
  show "defaultErrorMapper JUndefined = JNull" by (rule mapper_rejects) simp
  show "defaultErrorMapper r = JNull" if "js_typeof r \<noteq> TObject"
    using that by (intro mapper_rejects) simp
  show "defaultErrorMapper r = JNull" if "\<not> has_property ''errors'' r"
    using that by (intro mapper_rejects) simp
qed

theorem defaultErrorMapper_shape_witness:
  "defaultErrorMapper (JObj [(''errors'', JObj [(''email'', JArr [JStr ''taken''])])])
     = JObj [(''email'', JArr [JStr ''taken''])]
   \<and> defaultErrorMapper (JStr ''errors'') = JNull
   \<and> defaultErrorMapper (JObj [(''success'', JBool True)]) = JNull"
proof (intro conjI)
  have "get_property (JObj [(''errors'', JObj [(''email'', JArr [JStr ''taken''])])]) ''errors''
      = JObj [(''email'', JArr [JStr ''taken''])]"
    by (simp add: get_property_def)
  then show "defaultErrorMapper (JObj [(''errors'', JObj [(''email'', JArr [JStr ''taken''])])])
     = JObj [(''email'', JArr [JStr ''taken''])]"
    using defaultErrorMapper_shape [of "JObj [(''errors'', JObj [(''email'', JArr [JStr ''taken''])])]",
        THEN conjunct1]
    by simp
  have "js_typeof (JStr ''errors'') \<noteq> TObject" by simp
  then show "defaultErrorMapper (JStr ''errors'') = JNull"
    by (rule defaultErrorMapper_shape [of "JStr ''errors''", THEN conjunct2, THEN conjunct2,
          THEN conjunct2, THEN conjunct1, THEN mp])
  have "\<not> has_property ''errors'' (JObj [(''success'', JBool True)])"
    by (simp add: has_property_def)
  then show "defaultErrorMapper (JObj [(''success'', JBool True)]) = JNull"
    by (rule defaultErrorMapper_shape [of "JObj [(''success'', JBool True)]", THEN conjunct2,
          THEN conjunct2, THEN conjunct2, THEN conjunct2, THEN mp])
qed

text \<open>
  C10. The mapper hands back the \<^verbatim>\<open>errors\<close> property as it is, whatever it contains:
  an empty object and an (empty) array are returned, hence non-null; null and a string
  under \<^verbatim>\<open>errors\<close> give null.
\<close>

theorem defaultErrorMapper_uninspected:
  "(js_typeof e = TObject \<and> e \<noteq> JNull \<longrightarrow> defaultErrorMapper (JObj ((''errors'', e) # ps)) = e)
   \<and> defaultErrorMapper (JObj [(''errors'', JObj [])]) = JObj []
   \<and> defaultErrorMapper (JObj [(''errors'', JArr [])]) = JArr []
   \<and> defaultErrorMapper (JObj [(''errors'', JNull)]) = JNull
   \<and> defaultErrorMapper (JObj [(''errors'', JStr ''message'')]) = JNull"
proof (intro conjI impI)
  show "defaultErrorMapper (JObj ((''errors'', e) # ps)) = e" if "js_typeof e = TObject \<and> e \<noteq> JNull"
    using that object_nonnull_truthy [of e]
    by (simp add: defaultErrorMapper_def get_property_def has_property_def)
  show "defaultErrorMapper (JObj [(''errors'', JObj [])]) = JObj []"
    by (simp add: defaultErrorMapper_def get_property_def has_property_def)
  show "defaultErrorMapper (JObj [(''errors'', JArr [])]) = JArr []"
    by (simp add: defaultErrorMapper_def get_property_def has_property_def)
  show "defaultErrorMapper (JObj [(''errors'', JNull)]) = JNull"
    by (simp add: defaultErrorMapper_def get_property_def has_property_def)
  show "defaultErrorMapper (JObj [(''errors'', JStr ''message'')]) = JNull"
    by (simp add: defaultErrorMapper_def get_property_def has_property_def)
qed

theorem defaultErrorMapper_uninspected_witness:
  "defaultErrorMapper (JObj [(''errors'', JArr [JNum 1]), (''success'', JBool False)]) = JArr [JNum 1]"
  using defaultErrorMapper_uninspected [of "JArr [JNum 1]" "[(''success'', JBool False)]", THEN conjunct1]
  by simp

section \<open>Properties of the calling-convention detection\<close>

text \<open>
  C9. \<^verbatim>\<open>isFormDataAction\<close> is true exactly when the function's declared parameter count is
  at least 2; so the action is taken for the (previous result, form data) signature
  exactly then, and for the single-payload signature otherwise.
\<close>

theorem isFormDataAction_arity:
  "(isFormDataAction action \<longleftrightarrow> fn_length action \<ge> 2)
   \<and> (narrowed_signature action = FormDataServerAction \<longleftrightarrow> fn_length action \<ge> 2)
   \<and> (narrowed_signature action = JsonServerAction \<longleftrightarrow> fn_length action < 2)"
  by (auto simp: isFormDataAction_def narrowed_signature_def)

theorem isFormDataAction_arity_witness:
  "isFormDataAction \<lparr>fn_length = 2, schema_prop = None\<rparr>
   \<and> isFormDataAction \<lparr>fn_length = 3, schema_prop = None\<rparr>
   \<and> \<not> isFormDataAction \<lparr>fn_length = 1, schema_prop = None\<rparr>
   \<and> narrowed_signature \<lparr>fn_length = 0, schema_prop = None\<rparr> = JsonServerAction"
  using isFormDataAction_arity [of "\<lparr>fn_length = 2, schema_prop = None\<rparr>"]
        isFormDataAction_arity [of "\<lparr>fn_length = 3, schema_prop = None\<rparr>"]
        isFormDataAction_arity [of "\<lparr>fn_length = 1, schema_prop = None\<rparr>"]
        isFormDataAction_arity [of "\<lparr>fn_length = 0, schema_prop = None\<rparr>"]
  by auto

section \<open>Properties of the persistence helpers\<close>

lemma try_catch_returns: "\<exists>v. try_catch body (Inr d) = Inr v"
  by (cases body) (simp_all add: try_catch_def)

lemma isClient_readable: "w \<noteq> BlockedWindow \<Longrightarrow> \<exists>c. isClient w = Inr c"
  by (cases w) auto

lemma load_returns: "w \<noteq> BlockedWindow \<Longrightarrow> \<exists>v. loadPersistedValues parse w key = Inr v"
  using isClient_readable [of w] try_catch_returns
  by (auto simp: loadPersistedValues_def)

lemma save_returns:
  "w \<noteq> BlockedWindow \<Longrightarrow> \<exists>w'. savePersistedValues stringify w key vals = Inr w'"
  using isClient_readable [of w] try_catch_returns
  by (auto simp: savePersistedValues_def)

lemma clear_returns: "w \<noteq> BlockedWindow \<Longrightarrow> \<exists>w'. clearPersistedValues w key = Inr w'"
  using isClient_readable [of w] try_catch_returns
  by (auto simp: clearPersistedValues_def)



lemma load_malformed:
  "getItem m key = Inr (Some s) \<Longrightarrow> parse s = Inl e \<Longrightarrow>
   loadPersistedValues parse (Window (Some m)) key = Inr JNull"
  by (simp add: loadPersistedValues_def try_catch_def)

lemma load_medium_throws:
  "getItem m key = Inl e \<Longrightarrow> loadPersistedValues parse (Window (Some m)) key = Inr JNull"
  by (simp add: loadPersistedValues_def try_catch_def)

lemma save_medium_throws:
  "stringify vals = Inr s \<Longrightarrow> setItem m key s = Inl e \<Longrightarrow>
   savePersistedValues stringify (Window (Some m)) key vals = Inr (Window (Some m))"
  by (simp add: savePersistedValues_def try_catch_def)

text \<open>
  C6. The claim is that \<^verbatim>\<open>loadPersistedValues\<close>, \<^verbatim>\<open>savePersistedValues\<close> and
  \<^verbatim>\<open>clearPersistedValues\<close> never throw, whatever the state of storage. They do throw
  where access to storage is blocked: reading \<^verbatim>\<open>window.sessionStorage\<close> then throws, and
  \<^verbatim>\<open>isClient\<close> reads it before the \<^verbatim>\<open>try\<close> block of each helper, so the error leaves
  the helper, for every key, value, parser and serializer.
\<close>

theorem persistence_helpers_throw_when_storage_blocked:
  "loadPersistedValues parse BlockedWindow key = Inl SecurityError
   \<and> savePersistedValues stringify BlockedWindow key vals = Inl SecurityError
   \<and> clearPersistedValues BlockedWindow key = Inl SecurityError"
  by (simp add: loadPersistedValues_def savePersistedValues_def clearPersistedValues_def)

section \<open>Properties of debounce\<close>

lemma host_delay_covers: "delay \<le> TIMEOUT_MAX \<Longrightarrow> delay \<le> host_delay delay"
  by (simp add: host_delay_def)

lemma host_delay_positive: "0 < host_delay delay"
  by (simp add: host_delay_def)

lemma host_delay_exact: "1 \<le> delay \<Longrightarrow> delay \<le> TIMEOUT_MAX \<Longrightarrow> host_delay delay = delay"
  by (simp add: host_delay_def)

lemma elapse_idle: "queue s = [] \<Longrightarrow> elapse g s = s\<lparr>clock := clock s + g\<rparr>"
  by (simp add: elapse_def)

lemma elapse_early:
  "queue s = [(h, due, a)] \<Longrightarrow> clock s + g < due \<Longrightarrow> elapse g s = s\<lparr>clock := clock s + g\<rparr>"
  by (simp add: elapse_def)

lemma elapse_due:
  "queue s = [(h, due, a)] \<Longrightarrow> due \<le> clock s + g \<Longrightarrow> 0 < g \<Longrightarrow>
   elapse g s = s\<lparr>clock := clock s + g, queue := [], fired := fired s @ [(due, a)], timer := None\<rparr>"
  by (simp add: elapse_def run_timeout_def)

lemma call_idle:
  "timer s = None \<Longrightarrow> queue s = [] \<Longrightarrow>
   armed (clock s + host_delay delay) (clock s) a (fired s) (debounced_call delay a s)"
  by (simp add: debounced_call_def setTimeout_def armed_def)

lemma call_armed:
  "armed due t a F s \<Longrightarrow> armed (t + host_delay delay) t a' F (debounced_call delay a' s)"
  by (auto simp: debounced_call_def setTimeout_def clearTimeout_def armed_def)

lemma elapse_armed_early:
  "armed due t a F s \<Longrightarrow> t + g < due \<Longrightarrow> armed due (t + g) a F (elapse g s)"
  by (auto simp: armed_def elapse_early)

lemma burst_armed:
  "armed (t + host_delay delay) t a F s \<Longrightarrow> \<forall>c \<in> set cs. fst c < host_delay delay \<Longrightarrow>
   armed (t + sum_list (map fst cs) + host_delay delay) (t + sum_list (map fst cs))
         (if cs = [] then a else snd (last cs)) F (burst delay cs s)"
proof (induction cs arbitrary: s t a)
  case Nil
  then show ?case by simp
next
  case (Cons c cs)
  obtain g a' where c: "c = (g, a')" by (cases c)
  with Cons.prems have g: "g < host_delay delay" by simp
  have "armed (t + host_delay delay) (t + g) a F (elapse g s)"
    using Cons.prems(1) g by (intro elapse_armed_early) simp_all
  then have "armed (t + g + host_delay delay) (t + g) a' F (debounced_call delay a' (elapse g s))"
    by (rule call_armed)
  from Cons.IH [OF this] Cons.prems(2)
  show ?case by (cases "cs = []") (simp_all add: c add.assoc)
qed

lemma fired_after_armed:
  "armed (t + H) t a F s \<Longrightarrow> 0 < H \<Longrightarrow>
   fired (elapse d s) = (if H \<le> d then F @ [(t + H, a)] else F)"
  by (auto simp: armed_def elapse_early elapse_due)

text \<open>
  C8 as stated fails for a delay the host's timers do not take: at 2147483648 ms the host
  waits 1 ms, so of two calls 20 ms apart, well within the configured delay, each is
  followed by a call of the wrapped function.
\<close>

theorem debounce_trailing_edge_counterexample:
  "(20 :: nat) < 2147483648
   \<and> fired (elapse 100 (burst 2147483648 [(0, ''hello''), (20, ''world'')] debounce))
       = [(1, ''hello''), (21, ''world'')]"
  by (simp add: elapse_def debounce_def debounced_call_def setTimeout_def clearTimeout_def
      run_timeout_def host_delay_def TIMEOUT_MAX_def)

text \<open>
  C8, as amended. Trailing-edge semantics for every delay the host's timers take (at most
  2147483647 ms) and every closure with no call pending: for a burst of one or more
  calls, each arriving before the delay has run out since the one before, the wrapped
  function is called exactly once more, at the host's delay after the last call of the
  burst, with the arguments of that last call; until then it is not called. The host's
  delay is the configured one from 1 ms on, and 1 ms for a configured delay of 0.
\<close>

theorem debounce_trailing_edge:
  assumes "cs \<noteq> []" and "\<forall>c \<in> set (tl cs). fst c < delay" and "delay \<le> TIMEOUT_MAX"
    and "timer s = None" and "queue s = []"
  shows "fired (elapse d (burst delay cs s)) =
           (if host_delay delay \<le> d
            then fired s @ [(clock s + sum_list (map fst cs) + host_delay delay, snd (last cs))]
            else fired s)
     \<and> delay \<le> host_delay delay
     \<and> (1 \<le> delay \<longrightarrow> host_delay delay = delay)"
proof (intro conjI impI)
  obtain g a rest where cs: "cs = (g, a) # rest" using assms(1) by (cases cs) auto
  have cover: "delay \<le> host_delay delay" using assms(3) by (rule host_delay_covers)
  have gaps: "\<forall>c \<in> set rest. fst c < host_delay delay"
    using assms(2) cover by (auto simp: cs)
  have idle: "timer (elapse g s) = None" "queue (elapse g s) = []"
    "clock (elapse g s) = clock s + g" "fired (elapse g s) = fired s"
    using assms(4,5) by (simp_all add: elapse_idle)
  have "armed (clock s + g + host_delay delay) (clock s + g) a (fired s)
          (debounced_call delay a (elapse g s))"
    using call_idle [OF idle(1,2), of delay a] by (simp add: idle)
  from burst_armed [OF this gaps]
  have "armed (clock s + sum_list (map fst cs) + host_delay delay) (clock s + sum_list (map fst cs))
          (snd (last cs)) (fired s) (burst delay cs s)"
    by (cases "rest = []") (simp_all add: cs add.assoc)
  from fired_after_armed [OF this host_delay_positive]
  show "fired (elapse d (burst delay cs s)) =
           (if host_delay delay \<le> d
            then fired s @ [(clock s + sum_list (map fst cs) + host_delay delay, snd (last cs))]
            else fired s)"
    by simp
  show "delay \<le> host_delay delay" by (rule cover)
  show "host_delay delay = delay" if "1 \<le> delay"
    using that assms(3) by (rule host_delay_exact)
qed

theorem debounce_trailing_edge_witness:
  "fired (elapse 100 (burst 50 [(0, ''hello''), (10, ''world'')] debounce)) = [(60, ''world'')]
   \<and> fired (elapse 49 (burst 50 [(0, ''hello''), (10, ''world'')] debounce)) = []
   \<and> fired (elapse 300 (burst 300 [(5, ''again''), (299, ''last'')]
        \<lparr>timer = None, queue = [], next_handle = 3, clock = 500, fired = [(60, ''world'')]\<rparr>))
       = [(60, ''world''), (1104, ''last'')]"
proof (intro conjI)
  have small: "(50 :: nat) \<le> TIMEOUT_MAX" "(300 :: nat) \<le> TIMEOUT_MAX"
    by (simp_all add: TIMEOUT_MAX_def)
  have h: "host_delay 50 = 50" "host_delay 300 = 300"
    by (simp_all add: host_delay_def TIMEOUT_MAX_def)
  have fresh: "timer (debounce :: string debounced) = None" "queue (debounce :: string debounced) = []"
    "fired (debounce :: string debounced) = []" "clock (debounce :: string debounced) = 0"
    by (simp_all add: debounce_def)
  have gaps: "\<forall>c \<in> set (tl [(0 :: nat, ''hello''), (10, ''world'')]). fst c < 50"
    by simp
  note t = debounce_trailing_edge [where cs = "[(0, ''hello''), (10, ''world'')]" and delay = 50
      and s = "debounce :: string debounced", OF _ gaps small(1) fresh(1,2), THEN conjunct1]
  show "fired (elapse 100 (burst 50 [(0, ''hello''), (10, ''world'')] debounce)) = [(60, ''world'')]"
    using t [of 100] by (simp add: h fresh)
  show "fired (elapse 49 (burst 50 [(0, ''hello''), (10, ''world'')] debounce)) = []"
    using t [of 49] by (simp add: h fresh)
  let ?used = "\<lparr>timer = None, queue = [], next_handle = 3, clock = 500,
      fired = [(60 :: nat, ''world'')]\<rparr>"
  have gaps': "\<forall>c \<in> set (tl [(5 :: nat, ''again''), (299, ''last'')]). fst c < 300"
    by simp
  have used: "timer ?used = None" "queue ?used = []" by simp_all
  note u = debounce_trailing_edge [where cs = "[(5, ''again''), (299, ''last'')]" and delay = 300
      and s = ?used and d = 300, OF _ gaps' small(2) used, THEN conjunct1]
  show "fired (elapse 300 (burst 300 [(5, ''again''), (299, ''last'')] ?used))
      = [(60, ''world''), (1104, ''last'')]"
    using u by (simp add: h)
qed

section \<open>Properties of the submission controller\<close>

lemma handleSubmit_ValidationAborted:
  "handleSubmit opts submit vals s = (ValidationAborted errs, s') \<longleftrightarrow>
     validate opts submit vals = Some errs \<and> s' = abort_validation errs s"
  by (auto simp: handleSubmit_def Let_def split: option.splits sum.splits)

lemma handleSubmit_Vetoed:
  "handleSubmit opts submit vals s = (Vetoed, s') \<longleftrightarrow>
     validate opts submit vals = None \<and> vetoed (plugins opts) vals \<and> s' = abort_veto s"
  by (auto simp: handleSubmit_def Let_def split: option.splits sum.splits)

lemma handleSubmit_Threw:
  "handleSubmit opts submit vals s = (Threw e, s') \<longleftrightarrow>
     validate opts submit vals = None \<and> \<not> vetoed (plugins opts) vals \<and> invoke submit vals = Inl e
     \<and> s' = settle_threw opts (enter_submitting opts vals s)"
  by (auto simp: handleSubmit_def Let_def split: option.splits sum.splits)

lemma handleSubmit_FieldError:
  "handleSubmit opts submit vals s = (FieldError errs r, s') \<longleftrightarrow>
     validate opts submit vals = None \<and> \<not> vetoed (plugins opts) vals \<and> invoke submit vals = Inr r
     \<and> errorMapper opts r = Some errs
     \<and> s' = settle_field_error opts errs r (enter_submitting opts vals s)"
  by (auto simp: handleSubmit_def Let_def split: option.splits sum.splits)

lemma handleSubmit_Succeeded:
  "handleSubmit opts submit vals s = (Succeeded r, s') \<longleftrightarrow>
     validate opts submit vals = None \<and> \<not> vetoed (plugins opts) vals \<and> invoke submit vals = Inr r
     \<and> errorMapper opts r = None
     \<and> s' = settle_succeeded opts r (enter_submitting opts vals s)"
  by (auto simp: handleSubmit_def Let_def split: option.splits sum.splits)

lemma todo_succeed:
  "handleSubmit todo_options succeeding_action vals s
     = (Succeeded None, settle_succeeded todo_options None (enter_submitting todo_options vals s))"
  by (simp add: handleSubmit_Succeeded validate_def effectiveSchema_def vetoed_def todo_options_def
      succeeding_action_def)

lemma todo_reject:
  "handleSubmit todo_options rejecting_action vals s
     = (FieldError [(''title'', [''Title is required''])] (Some [(''title'', [''Title is required''])]),
        settle_field_error todo_options [(''title'', [''Title is required''])]
          (Some [(''title'', [''Title is required''])]) (enter_submitting todo_options vals s))"
  by (simp add: handleSubmit_FieldError validate_def effectiveSchema_def vetoed_def todo_options_def
      rejecting_action_def)

lemma todo_throw:
  "handleSubmit todo_options throwing_action vals s
     = (Threw ''Network error'', settle_threw todo_options (enter_submitting todo_options vals s))"
  by (simp add: handleSubmit_Threw validate_def effectiveSchema_def vetoed_def todo_options_def
      throwing_action_def)

lemma signup_abort:
  "handleSubmit signup_options succeeding_action [(''email'', ''bad''), (''password'', ''short'')] s
     = (ValidationAborted [(''email'', [''Invalid email address'']),
                           (''password'', [''Password must be at least 8 characters''])],
        abort_validation [(''email'', [''Invalid email address'']),
                          (''password'', [''Password must be at least 8 characters''])] s)"
proof -
  have "signupSchema [(''email'', ''bad''), (''password'', ''short'')]
      = Some [(''email'', [''Invalid email address'']),
              (''password'', [''Password must be at least 8 characters''])]"
    by (simp add: signupSchema_def)
  then show ?thesis
    by (simp add: handleSubmit_ValidationAborted validate_def effectiveSchema_def signup_options_def)
qed

text \<open>
  C1. When a client-side schema is configured (given as an option, or attached to the
  submit function) and the field values fail it, the submit handler does not call the
  submit function (its calls stay as they were, none after mount), the validation error
  record becomes \<^verbatim>\<open>submitErrors\<close> (non-null), and \<^verbatim>\<open>isSubmitSuccessful\<close> is false.
\<close>

theorem validation_failure_blocks_submit:
  assumes "effectiveSchema opts submit = Some sch" and "sch vals = Some errs"
  shows "fst (handleSubmit opts submit vals s) = ValidationAborted errs
     \<and> submitted (snd (handleSubmit opts submit vals s)) = submitted s
     \<and> submitErrors (formState (snd (handleSubmit opts submit vals s))) = Some errs
     \<and> \<not> isSubmitSuccessful (formState (snd (handleSubmit opts submit vals s)))
     \<and> length (submitted (snd (handleSubmit opts submit vals (mount opts w)))) = 0"
proof -
  have v: "validate opts submit vals = Some errs"
    using assms by (simp add: validate_def)
  have run: "handleSubmit opts submit vals t = (ValidationAborted errs, abort_validation errs t)" for t
    using v by (simp add: handleSubmit_def)
  show ?thesis
    by (simp add: run abort_validation_def mount_def)
qed

theorem validation_failure_blocks_submit_witness:
  "fst (handleSubmit signup_options succeeding_action [(''email'', ''bad''), (''password'', ''short'')]
          (mount signup_options NoWindow))
     = ValidationAborted [(''email'', [''Invalid email address'']),
                          (''password'', [''Password must be at least 8 characters''])]
   \<and> length (submitted (snd (handleSubmit signup_options succeeding_action
          [(''email'', ''bad''), (''password'', ''short'')] (mount signup_options NoWindow)))) = 0"
proof -
  have a: "effectiveSchema signup_options succeeding_action = Some signupSchema"
    by (simp add: effectiveSchema_def signup_options_def)
  have b: "signupSchema [(''email'', ''bad''), (''password'', ''short'')]
      = Some [(''email'', [''Invalid email address'']),
              (''password'', [''Password must be at least 8 characters''])]"
    by (simp add: signupSchema_def)
  note t = validation_failure_blocks_submit
    [of signup_options succeeding_action signupSchema "[(''email'', ''bad''), (''password'', ''short'')]"
        "[(''email'', [''Invalid email address'']),
          (''password'', [''Password must be at least 8 characters''])]"
        "mount signup_options NoWindow" NoWindow, OF a b]
  show ?thesis
    using t [THEN conjunct1] t [THEN conjunct2, THEN conjunct2, THEN conjunct2, THEN conjunct2]
    by (rule conjI)
qed

lemma success_confirms:
  assumes "optimisticReducer opts = Some f"
  shows "optimistic (settle_succeeded opts r (enter_submitting opts vals s))
       = \<lparr>confirmed = f (confirmed (optimistic s)) vals, data = f (confirmed (optimistic s)) vals\<rparr>"
  using assms
  by (simp add: settle_succeeded_def enter_submitting_def reconciler_apply_def reconciler_confirm_def)

lemma failure_rolls_back:
  assumes "optimisticReducer opts = Some f"
  shows "optimistic (settle_threw opts (enter_submitting opts vals s)) = rollback (optimistic s)"
    and "optimistic (settle_field_error opts errs r (enter_submitting opts vals s)) = rollback (optimistic s)"
  using assms
  by (simp_all add: settle_threw_def settle_field_error_def enter_submitting_def reconciler_apply_def
      rollback_def)

lemma reducer_enabled:
  "optimisticKey opts = Some k \<Longrightarrow> optimisticData opts = Some f \<Longrightarrow> optimisticReducer opts = Some f"
  by (simp add: optimisticReducer_def)

text \<open>
  C5. With optimistic updates configured with reducer \<open>f\<close>, confirmed value \<open>c\<close> and
  submitted values \<open>v\<close>, after a successful submission \<^verbatim>\<open>optimistic.data\<close> is \<open>f c v\<close>, and
  \<open>f c v\<close> is the new confirmed value; right after mount \<open>c\<close> is the initial value.
\<close>

theorem success_applies_reducer:
  assumes "optimisticKey opts = Some k" and "optimisticData opts = Some f"
    and "handleSubmit opts submit vals s = (Succeeded r, s')"
  shows "data (optimistic s') = f (confirmed (optimistic s)) vals
     \<and> confirmed (optimistic s') = f (confirmed (optimistic s)) vals
     \<and> (s = mount opts w \<longrightarrow> data (optimistic s') = f (optimisticInitial opts) vals)"
proof -
  have red: "optimisticReducer opts = Some f" using assms(1,2) by (rule reducer_enabled)
  have "s' = settle_succeeded opts r (enter_submitting opts vals s)"
    using assms(3) by (simp add: handleSubmit_Succeeded)
  then have "optimistic s'
      = \<lparr>confirmed = f (confirmed (optimistic s)) vals, data = f (confirmed (optimistic s)) vals\<rparr>"
    using success_confirms [OF red] by simp
  then show ?thesis by (simp add: mount_def reconciler_init_def)
qed

theorem success_applies_reducer_witness:
  "data (optimistic (snd (handleSubmit todo_options succeeding_action [(''title'', ''Updated'')]
      (mount todo_options NoWindow)))) = ''Updated''
   \<and> confirmed (optimistic (snd (handleSubmit todo_options succeeding_action [(''title'', ''Updated'')]
      (mount todo_options NoWindow)))) = ''Updated''"
proof -
  let ?f = "\<lambda>current vals. case map_of vals ''title'' of Some t \<Rightarrow> t | None \<Rightarrow> (current :: string)"
  let ?s0 = "mount todo_options NoWindow
      :: ((string \<times> string) list, FieldErrorRecord option, string) controller"
  have k: "optimisticKey todo_options = Some ''todo-1''" by (simp add: todo_options_def)
  have f: "optimisticData todo_options = Some ?f" by (simp add: todo_options_def)
  note t = success_applies_reducer [where opts = todo_options and k = "''todo-1''" and f = ?f
      and submit = succeeding_action and vals = "[(''title'', ''Updated'')]" and s = ?s0 and r = None
      and s' = "settle_succeeded todo_options None
                  (enter_submitting todo_options [(''title'', ''Updated'')] ?s0)"
      and w = NoWindow, OF k f todo_succeed]
  show ?thesis
    using t [THEN conjunct1] t [THEN conjunct2, THEN conjunct1]
    by (simp add: todo_succeed)
qed

lemma rollback_idem: "rollback (rollback rc) = rollback rc"
  by (simp add: rollback_def)

lemma rollback_funpow: "(rollback ^^ Suc n) rc = rollback rc"
  by (induction n) (simp_all add: rollback_idem)

lemma manual_rollback_funpow:
  "optimistic ((manual_rollback ^^ n) s) = (rollback ^^ n) (optimistic s)"
  by (induction n) (simp_all add: manual_rollback_def)

text \<open>
  C4. With optimistic updates configured, a rollback, whether the automatic one after a
  submission that ended in field errors or threw, or an explicit one, leaves
  \<^verbatim>\<open>optimistic.data\<close> at the last confirmed value and the confirmed value as it was;
  rolling back any number of times in a row is the same as rolling back once; and once a
  submission has succeeded, rollbacks and failing submissions after it give the value it
  confirmed, not an earlier one.
\<close>

theorem rollback_restores_confirmed:
  assumes "optimisticKey opts = Some k" and "optimisticData opts = Some f"
  shows "data (rollback rc) = confirmed rc \<and> confirmed (rollback rc) = confirmed rc
     \<and> (rollback ^^ Suc n) rc = rollback rc
     \<and> data (optimistic ((manual_rollback ^^ Suc n) s)) = confirmed (optimistic s)
     \<and> confirmed (optimistic ((manual_rollback ^^ Suc n) s)) = confirmed (optimistic s)
     \<and> (handleSubmit opts submit vals s = (FieldError errs r, s') \<or> handleSubmit opts submit vals s = (Threw e, s')
          \<longrightarrow> data (optimistic s') = confirmed (optimistic s)
            \<and> confirmed (optimistic s') = confirmed (optimistic s))
     \<and> (handleSubmit opts submit vals s = (Succeeded r, s')
          \<longrightarrow> data (optimistic ((manual_rollback ^^ Suc n) s')) = f (confirmed (optimistic s)) vals
            \<and> (handleSubmit opts_b submit_b vals_b s' = (FieldError errs r_b, s_b)
                 \<or> handleSubmit opts_b submit_b vals_b s' = (Threw e, s_b)
                \<longrightarrow> optimisticReducer opts_b \<noteq> None
                \<longrightarrow> data (optimistic s_b) = f (confirmed (optimistic s)) vals))"
proof (intro conjI impI)
  have red: "optimisticReducer opts = Some f" using assms by (rule reducer_enabled)
  show "data (rollback rc) = confirmed rc" by (simp add: rollback_def)
  show "confirmed (rollback rc) = confirmed rc" by (simp add: rollback_def)
  show "(rollback ^^ Suc n) rc = rollback rc" by (rule rollback_funpow)
  show "data (optimistic ((manual_rollback ^^ Suc n) s)) = confirmed (optimistic s)"
    unfolding manual_rollback_funpow rollback_funpow by (simp add: rollback_def)
  show "confirmed (optimistic ((manual_rollback ^^ Suc n) s)) = confirmed (optimistic s)"
    unfolding manual_rollback_funpow rollback_funpow by (simp add: rollback_def)
  {
    assume "handleSubmit opts submit vals s = (FieldError errs r, s')
          \<or> handleSubmit opts submit vals s = (Threw e, s')"
    then have "optimistic s' = rollback (optimistic s)"
      using failure_rolls_back [OF red] by (auto simp: handleSubmit_FieldError handleSubmit_Threw)
    then show "data (optimistic s') = confirmed (optimistic s)"
      and "confirmed (optimistic s') = confirmed (optimistic s)"
      by (simp_all add: rollback_def)
  }
  {
    assume "handleSubmit opts submit vals s = (Succeeded r, s')"
    then have "s' = settle_succeeded opts r (enter_submitting opts vals s)"
      by (simp add: handleSubmit_Succeeded)
    then have conf: "optimistic s'
        = \<lparr>confirmed = f (confirmed (optimistic s)) vals, data = f (confirmed (optimistic s)) vals\<rparr>"
      using success_confirms [OF red] by simp
    show "data (optimistic ((manual_rollback ^^ Suc n) s')) = f (confirmed (optimistic s)) vals"
      unfolding manual_rollback_funpow rollback_funpow by (simp add: rollback_def conf)
    assume later: "handleSubmit opts_b submit_b vals_b s' = (FieldError errs r_b, s_b)
          \<or> handleSubmit opts_b submit_b vals_b s' = (Threw e, s_b)"
      and "optimisticReducer opts_b \<noteq> None"
    then obtain f2 where "optimisticReducer opts_b = Some f2" by auto
    from failure_rolls_back [OF this] later
    have "optimistic s_b = rollback (optimistic s')"
      by (auto simp: handleSubmit_FieldError handleSubmit_Threw)
    then show "data (optimistic s_b) = f (confirmed (optimistic s)) vals"
      by (simp add: rollback_def conf)
  }
qed

theorem rollback_restores_confirmed_witness:
  "data (optimistic (snd (handleSubmit todo_options throwing_action [(''title'', ''Will fail'')]
      (mount todo_options NoWindow)))) = ''Buy groceries''
   \<and> data (optimistic (snd (handleSubmit todo_options throwing_action [(''title'', ''Will fail'')]
      (snd (handleSubmit todo_options succeeding_action [(''title'', ''Updated'')]
        (mount todo_options NoWindow)))))) = ''Updated''
   \<and> data (optimistic ((manual_rollback ^^ 3) (snd (handleSubmit todo_options succeeding_action
        [(''title'', ''Updated'')] (mount todo_options NoWindow))))) = ''Updated''"
proof -
  let ?f = "\<lambda>current vals. case map_of vals ''title'' of Some t \<Rightarrow> t | None \<Rightarrow> (current :: string)"
  let ?s0 = "mount todo_options NoWindow :: ((string \<times> string) list, FieldErrorRecord option, string) controller"
  let ?s1 = "settle_succeeded todo_options None (enter_submitting todo_options [(''title'', ''Updated'')] ?s0)"
  let ?s2 = "settle_threw todo_options (enter_submitting todo_options [(''title'', ''Will fail'')] ?s1)"
  let ?t = "settle_threw todo_options (enter_submitting todo_options [(''title'', ''Will fail'')] ?s0)"
  have k: "optimisticKey todo_options = Some ''todo-1''" by (simp add: todo_options_def)
  have f: "optimisticData todo_options = Some ?f" by (simp add: todo_options_def)
  have red: "optimisticReducer todo_options \<noteq> None" by (simp add: optimisticReducer_def todo_options_def)
  have c0: "confirmed (optimistic ?s0) = ''Buy groceries''"
    by (simp add: mount_def reconciler_init_def todo_options_def)
  let ?errs = "[(''title'', [''Title is required''])] :: FieldErrorRecord"
  note a = rollback_restores_confirmed [where opts = todo_options and k = "''todo-1''" and f = ?f
      and rc = "optimistic ?s0" and n = 2 and errs = ?errs and r = None
      and s = ?s0 and submit = throwing_action and vals = "[(''title'', ''Will fail'')]"
      and e = "''Network error''" and s' = ?t and opts_b = todo_options and submit_b = throwing_action
      and vals_b = "[(''title'', ''Will fail'')]" and r_b = None and s_b = ?s2, OF k f]
  note b = rollback_restores_confirmed [where opts = todo_options and k = "''todo-1''" and f = ?f
      and rc = "optimistic ?s0" and errs = ?errs
      and s = ?s0 and submit = succeeding_action and vals = "[(''title'', ''Updated'')]"
      and r = None and s' = ?s1 and n = 2 and opts_b = todo_options and submit_b = throwing_action
      and vals_b = "[(''title'', ''Will fail'')]" and r_b = None and e = "''Network error''"
      and s_b = ?s2, OF k f]
  note automatic = a [THEN conjunct2, THEN conjunct2, THEN conjunct2, THEN conjunct2, THEN conjunct2,
      THEN conjunct1, THEN mp, OF disjI2, OF todo_throw, THEN conjunct1]
  note after_success = b [THEN conjunct2, THEN conjunct2, THEN conjunct2, THEN conjunct2,
      THEN conjunct2, THEN conjunct2, THEN mp, OF todo_succeed]
  note later_failure = after_success [THEN conjunct2, THEN mp, OF disjI2, OF todo_throw, THEN mp, OF red]
  have 1: "data (optimistic ?t) = ''Buy groceries''"
    using automatic c0 by simp
  have 2: "data (optimistic ?s2) = ''Updated''"
    using later_failure by simp
  have 3: "data (optimistic ((manual_rollback ^^ Suc 2) ?s1)) = ''Updated''"
    using after_success [THEN conjunct1] by simp
  have three: "Suc 2 = 3" by simp
  show ?thesis
    using 1 2 3 unfolding three by (simp only: todo_succeed todo_throw snd_conv)
qed







lemma run_submitErrors:
  assumes "handleSubmit opts submit vals s = (out, s')"
  shows "submitErrors (formState s') =
     (case out of
        ValidationAborted errs \<Rightarrow> Some errs
      | FieldError errs r \<Rightarrow> Some errs
      | Vetoed \<Rightarrow> submitErrors (formState s)
      | Succeeded r \<Rightarrow> None
      | Threw e \<Rightarrow> None)"
proof (cases out)
  case (ValidationAborted errs)
  with assms show ?thesis by (simp add: handleSubmit_ValidationAborted abort_validation_def)
next
  case Vetoed
  with assms show ?thesis by (simp add: handleSubmit_Vetoed abort_veto_def)
next
  case (Succeeded r)
  with assms show ?thesis
    by (simp add: handleSubmit_Succeeded settle_succeeded_def enter_submitting_def)
next
  case (FieldError errs r)
  with assms show ?thesis
    by (simp add: handleSubmit_FieldError settle_field_error_def enter_submitting_def)
next
  case (Threw e)
  with assms show ?thesis
    by (simp add: handleSubmit_Threw settle_threw_def enter_submitting_def)
qed

lemma run_attempted:
  assumes "handleSubmit opts submit vals s = (out, s')"
  shows "attempted out \<Longrightarrow> (submitErrors (formState s') \<noteq> None) = produced_field_errors out"
    and "\<not> attempted out \<Longrightarrow> submitErrors (formState s') = submitErrors (formState s)"
  using run_submitErrors [OF assms] by (cases out; simp)+

lemma most_recent_attempt_Cons:
  "most_recent_attempt (out # outs) =
     (case most_recent_attempt outs of
        Some x \<Rightarrow> Some x
      | None \<Rightarrow> if attempted out then Some out else None)"
  by (simp add: most_recent_attempt_def split: list.splits)

lemma submissions_submitErrors:
  "submissions runs s = (outs, s') \<Longrightarrow>
   (submitErrors (formState s') \<noteq> None) =
     (case most_recent_attempt outs of
        None \<Rightarrow> submitErrors (formState s) \<noteq> None
      | Some out \<Rightarrow> produced_field_errors out)"
proof (induction runs arbitrary: s outs s')
  case Nil
  then show ?case by (simp add: most_recent_attempt_def)
next
  case (Cons run runs)
  obtain opts submit vals where run: "run = (opts, submit, vals)" by (cases run)
  obtain out s1 where h: "handleSubmit opts submit vals s = (out, s1)" by (cases "handleSubmit opts submit vals s")
  obtain outs1 s2 where rest: "submissions runs s1 = (outs1, s2)" by (cases "submissions runs s1")
  from Cons.prems have outs: "outs = out # outs1" and s': "s' = s2"
    by (simp_all add: run h rest)
  note IH = Cons.IH [OF rest]
  show ?case
  proof (cases "most_recent_attempt outs1")
    case None
    with IH have "(submitErrors (formState s2) \<noteq> None) = (submitErrors (formState s1) \<noteq> None)"
      by simp
    with None run_attempted [OF h] show ?thesis
      by (cases "attempted out") (simp_all add: outs s' most_recent_attempt_Cons)
  next
    case (Some x)
    with IH show ?thesis by (simp add: outs s' most_recent_attempt_Cons)
  qed
qed

text \<open>
  C7. After any series of submissions since mount, \<^verbatim>\<open>submitErrors\<close> is non-null exactly
  when the most recent submission attempt ended with a field error record: a classified
  field-error result or a client-validation abort. It is null after a success and after a
  throw, it is the record after a field-error result, and after a validation abort it is
  the record although the submit function was not called.
\<close>

theorem submitErrors_tracks_most_recent_attempt:
  assumes "submissions runs (mount opts w) = (outs, s')"
  shows "(submitErrors (formState s') \<noteq> None \<longleftrightarrow>
            (case most_recent_attempt outs of None \<Rightarrow> False | Some out \<Rightarrow> produced_field_errors out))
     \<and> (handleSubmit opts_a submit vals s = (Succeeded r, s_a) \<longrightarrow> submitErrors (formState s_a) = None)
     \<and> (handleSubmit opts_a submit vals s = (Threw e, s_a) \<longrightarrow> submitErrors (formState s_a) = None)
     \<and> (handleSubmit opts_a submit vals s = (FieldError errs r, s_a)
          \<longrightarrow> submitErrors (formState s_a) = Some errs)
     \<and> (handleSubmit opts_a submit vals s = (ValidationAborted errs, s_a)
          \<longrightarrow> submitErrors (formState s_a) = Some errs \<and> submitted s_a = submitted s)"
proof (intro conjI impI)
  have "submitErrors (formState (mount opts w)) = None" by (simp add: mount_def)
  with submissions_submitErrors [OF assms]
  show "submitErrors (formState s') \<noteq> None \<longleftrightarrow>
            (case most_recent_attempt outs of None \<Rightarrow> False | Some out \<Rightarrow> produced_field_errors out)"
    by (simp split: option.splits)
  show "submitErrors (formState s_a) = None" if "handleSubmit opts_a submit vals s = (Succeeded r, s_a)"
    using run_submitErrors [OF that] by simp
  show "submitErrors (formState s_a) = None" if "handleSubmit opts_a submit vals s = (Threw e, s_a)"
    using run_submitErrors [OF that] by simp
  show "submitErrors (formState s_a) = Some errs"
    if "handleSubmit opts_a submit vals s = (FieldError errs r, s_a)"
    using run_submitErrors [OF that] by simp
  show "submitErrors (formState s_a) = Some errs"
    if "handleSubmit opts_a submit vals s = (ValidationAborted errs, s_a)"
    using run_submitErrors [OF that] by simp
  show "submitted s_a = submitted s"
    if "handleSubmit opts_a submit vals s = (ValidationAborted errs, s_a)"
    using that by (simp add: handleSubmit_ValidationAborted abort_validation_def)
qed

theorem submitErrors_tracks_most_recent_attempt_witness:
  "submitErrors (formState (snd (submissions
      [(todo_options, rejecting_action, [(''title'', [])]),
       (todo_options, throwing_action, [(''title'', ''Will fail'')])]
      (mount todo_options NoWindow)))) = None
   \<and> submitErrors (formState (snd (submissions
      [(todo_options, succeeding_action, [(''title'', ''Updated'')]),
       (signup_options, succeeding_action, [(''email'', ''bad''), (''password'', ''short'')])]
      (mount todo_options NoWindow)))) \<noteq> None
   \<and> submitErrors (formState (snd (handleSubmit todo_options rejecting_action [(''title'', [])]
      (mount todo_options NoWindow)))) = Some [(''title'', [''Title is required''])]"
proof (intro conjI)
  let ?s0 = "mount todo_options NoWindow
      :: ((string \<times> string) list, FieldErrorRecord option, string) controller"
  let ?runs = "[(todo_options, rejecting_action, [(''title'', [])]),
       (todo_options, throwing_action, [(''title'', ''Will fail'')])]"
  have outs: "fst (submissions ?runs ?s0)
      = [FieldError [(''title'', [''Title is required''])] (Some [(''title'', [''Title is required''])]),
         Threw ''Network error'']"
    by (simp add: todo_reject todo_throw)
  note t = submitErrors_tracks_most_recent_attempt
    [where runs = ?runs and opts = todo_options and w = NoWindow
       and outs = "fst (submissions ?runs ?s0)" and s' = "snd (submissions ?runs ?s0)",
     OF prod.collapse [symmetric], THEN conjunct1]
  show "submitErrors (formState (snd (submissions ?runs ?s0))) = None"
    using t unfolding outs by (simp add: most_recent_attempt_def)
  let ?runs' = "[(todo_options, succeeding_action, [(''title'', ''Updated'')]),
       (signup_options, succeeding_action, [(''email'', ''bad''), (''password'', ''short'')])]"
  have outs': "fst (submissions ?runs' ?s0)
      = [Succeeded None,
         ValidationAborted [(''email'', [''Invalid email address'']),
                            (''password'', [''Password must be at least 8 characters''])]]"
    by (simp add: todo_succeed signup_abort)
  note t' = submitErrors_tracks_most_recent_attempt
    [where runs = ?runs' and opts = todo_options and w = NoWindow
       and outs = "fst (submissions ?runs' ?s0)" and s' = "snd (submissions ?runs' ?s0)",
     OF prod.collapse [symmetric], THEN conjunct1]
  show "submitErrors (formState (snd (submissions ?runs' ?s0))) \<noteq> None"
    using t' unfolding outs' by (simp add: most_recent_attempt_def)
  let ?errs = "[(''title'', [''Title is required''])] :: FieldErrorRecord"
  let ?s1 = "settle_field_error todo_options ?errs (Some ?errs)
      (enter_submitting todo_options [(''title'', [])] ?s0)"
  note u = submitErrors_tracks_most_recent_attempt
    [where runs = ?runs and opts = todo_options and w = NoWindow
       and outs = "fst (submissions ?runs ?s0)" and s' = "snd (submissions ?runs ?s0)"
       and opts_a = todo_options and submit = rejecting_action and vals = "[(''title'', [])]"
       and s = ?s0 and errs = ?errs and r = "Some ?errs" and s_a = ?s1,
     OF prod.collapse [symmetric], THEN conjunct2, THEN conjunct2, THEN conjunct2, THEN conjunct1,
     THEN mp, OF todo_reject]
  show "submitErrors (formState (snd (handleSubmit todo_options rejecting_action [(''title'', [])] ?s0)))
      = Some ?errs"
    using u by (simp only: todo_reject snd_conv)
qed

end
